theory Spec2Isabelle
  imports Main "HOL-Library.Word" "HOL-Library.AList"
begin

section \<open>Data model\<close>

text \<open>
  The Go type \<open>int\<close> is modelled as a 64-bit machine word read as two's complement
  (\<open>sint\<close>): \<open>+\<close> wraps around, as Go's signed addition does, and every comparison
  of the source is a comparison of the signed values.
\<close>

type_synonym goint = "64 word"

text \<open>
  The error kinds of the package (\<open>capacityReachedError\<close>, \<open>executionFailedError\<close>,
  \<open>invalidConfigError\<close>, \<open>itemsNotFoundError\<close>), the store's not-found condition, the
  error of \<open>strconv.Atoi\<close>, and the runtime panic of an out-of-range index.
\<close>

datatype error =
    CapacityReached
  | ExecutionFailed
  | InvalidConfig
  | ItemsNotFound
  | NotFound
  | NumError
  | IndexOutOfRange

definition latestItemException :: goint where
  "latestItemException = -1"

section \<open>The allocator\<close>

fun containsInt :: "goint list \<Rightarrow> goint \<Rightarrow> bool" where
  "containsInt [] item = False"
| "containsInt (l # list) item = (if l = item then True else containsInt list item)"

text \<open>
  The closure \<open>iterator\<close> of \<open>nextItem\<close>:
  \<^verbatim>\<open>for i := min; i <= max; i++ { if containsInt(used, i) { continue }; return i }\<close>
  followed by \<^verbatim>\<open>return latestItemException\<close>. With \<open>max\<close> the largest \<open>int\<close> the
  test \<open>i <= max\<close> never fails and \<open>i++\<close> wraps, so the loop need not return:
  not returning is the value \<open>None\<close>.
\<close>

partial_function (option) iterator :: "goint list \<Rightarrow> goint \<Rightarrow> goint \<Rightarrow> goint option" where
  "iterator used i mx =
     (if sint i \<le> sint mx
      then (if containsInt used i then iterator used (i + 1) mx else Some i)
      else Some latestItemException)"

text \<open>
  \<open>nextItem\<close>: the five validations in the order of the source, \<open>sort.Ints(used)\<close>,
  then the scan from \<open>latest + 1\<close> and the scan from \<open>min\<close>. The parameters
  \<open>min\<close> and \<open>max\<close> of the source are written \<open>mn\<close> and \<open>mx\<close>.
\<close>

definition nextItem :: "goint list \<Rightarrow> goint \<Rightarrow> goint \<Rightarrow> goint \<Rightarrow> (error + goint) option" where
  "nextItem used mn mx latest =
     (if sint mn \<le> -1 then Some (Inl ExecutionFailed)
      else if sint mx \<le> -1 then Some (Inl ExecutionFailed)
      else if sint mn \<ge> sint mx then Some (Inl ExecutionFailed)
      else if latest \<noteq> latestItemException \<and> sint latest < sint mn then Some (Inl ExecutionFailed)
      else if latest \<noteq> latestItemException \<and> sint latest > sint mx then Some (Inl ExecutionFailed)
      else
        let used = sort_key sint used in
        (case (if latest \<noteq> latestItemException
               then iterator used (latest + 1) mx
               else Some latestItemException) of
           None \<Rightarrow> None
         | Some n1 \<Rightarrow>
             if latest \<noteq> latestItemException \<and> n1 \<noteq> latestItemException then Some (Inr n1)
             else
               (case iterator used mn mx of
                  None \<Rightarrow> None
                | Some n2 \<Rightarrow>
                    if n2 \<noteq> latestItemException then Some (Inr n2)
                    else Some (Inl CapacityReached))))"

section \<open>Strings and numbers\<close>

text \<open>
  \<open>strconv.Itoa\<close> and \<open>strconv.Atoi\<close> of Go's standard library. \<open>Itoa\<close> prints the
  decimal digits, after a minus sign for a negative number. \<open>Atoi\<close> reads an optional
  sign and at least one decimal digit, and fails on any other character and on a
  value outside the range of \<open>int\<close>.
\<close>

definition digit_char :: "nat \<Rightarrow> char" where
  "digit_char d = ''0123456789'' ! d"

function digits :: "nat \<Rightarrow> string" where
  "digits n = (if n < 10 then [digit_char n] else digits (n div 10) @ [digit_char (n mod 10)])"
  by pat_completeness auto
termination
  by (relation "measure (\<lambda>n. n)") auto

declare digits.simps [simp del]

definition Itoa :: "goint \<Rightarrow> string" where
  "Itoa i = (if sint i < 0 then CHR ''-'' # digits (nat (- sint i)) else digits (nat (sint i)))"

definition digit_val :: "char \<Rightarrow> nat option" where
  "digit_val c =
     (let k = (of_char c :: nat) in if 48 \<le> k \<and> k \<le> 57 then Some (k - 48) else None)"

fun parse_nat :: "nat \<Rightarrow> string \<Rightarrow> nat option" where
  "parse_nat n [] = Some n"
| "parse_nat n (c # cs) =
     (case digit_val c of None \<Rightarrow> None | Some d \<Rightarrow> parse_nat (n * 10 + d) cs)"

definition Atoi :: "string \<Rightarrow> error + goint" where
  "Atoi s =
     (case s of
        [] \<Rightarrow> Inl NumError
      | c # cs \<Rightarrow>
          let neg = (c = CHR ''-'');
              body = (if c = CHR ''-'' \<or> c = CHR ''+'' then cs else s)
          in if body = [] then Inl NumError
             else (case parse_nat 0 body of
                     None \<Rightarrow> Inl NumError
                   | Some n \<Rightarrow>
                       if neg then (if n \<le> 2 ^ 63 then Inr (word_of_int (- int n)) else Inl NumError)
                       else (if n < 2 ^ 63 then Inr (word_of_nat n) else Inl NumError)))"

text \<open>\<open>stringsToInts\<close>: the first string that \<open>Atoi\<close> refuses ends the conversion.\<close>

fun stringsToInts :: "string list \<Rightarrow> error + goint list" where
  "stringsToInts [] = Inr []"
| "stringsToInts (l # list) =
     (case Atoi l of
        Inl e \<Rightarrow> Inl e
      | Inr i \<Rightarrow> (case stringsToInts list of Inl e \<Rightarrow> Inl e | Inr converted \<Rightarrow> Inr (i # converted)))"

section \<open>Storage keys\<close>

text \<open>The five format strings, each applied by \<open>fmt.Sprintf\<close> to its \<open>%s\<close> arguments.\<close>

definition IDKeyFormat :: "string \<Rightarrow> string \<Rightarrow> string \<Rightarrow> string" where
  "IDKeyFormat namespace ID i = ''range-pool/'' @ namespace @ ''/id/'' @ ID @ ''/item/'' @ i"

definition IDListKeyFormat :: "string \<Rightarrow> string \<Rightarrow> string" where
  "IDListKeyFormat namespace ID = ''range-pool/'' @ namespace @ ''/id/'' @ ID @ ''/item''"

definition ItemKeyFormat :: "string \<Rightarrow> string \<Rightarrow> string" where
  "ItemKeyFormat namespace i = ''range-pool/'' @ namespace @ ''/item/'' @ i"

definition ItemListKeyFormat :: "string \<Rightarrow> string" where
  "ItemListKeyFormat namespace = ''range-pool/'' @ namespace @ ''/item''"

definition LatestKeyFormat :: "string \<Rightarrow> string" where
  "LatestKeyFormat namespace = ''range-pool/'' @ namespace @ ''/latest''"

section \<open>The key-value store\<close>

text \<open>
  Modelled from the spec: the key-value store behind \<open>s.storage\<close> is an external
  package and not part of the sources. The spec's contract for it is \<open>create(key, value)\<close>,
  \<open>delete(key)\<close>, \<open>search(key)\<close> (point lookup) and \<open>list(prefix)\<close> (prefix scan giving
  values), each reporting a distinguishable not-found condition for missing keys. The
  model is an in-memory store: an association list with one entry per key. \<open>create\<close>
  overwrites (the service writes the latest cursor over itself on every batch),
  \<open>delete\<close> of an absent key succeeds (the service deletes list keys it never
  created), \<open>list\<close> gives the values of the records stored below the prefix, that is
  under a key \<open>prefix/rest\<close> with a non-empty \<open>rest\<close>, and is not-found when there are
  none. Writes of this store never fail.
\<close>

type_synonym storage = "(string \<times> string) list"

definition storage_Create :: "storage \<Rightarrow> string \<Rightarrow> string \<Rightarrow> error + storage" where
  "storage_Create s key val = Inr (AList.update key val s)"

definition storage_Delete :: "storage \<Rightarrow> string \<Rightarrow> error + storage" where
  "storage_Delete s key = Inr (AList.delete key s)"

definition storage_Search :: "storage \<Rightarrow> string \<Rightarrow> error + string" where
  "storage_Search s key = (case map_of s key of None \<Rightarrow> Inl NotFound | Some v \<Rightarrow> Inr v)"

definition below :: "string \<Rightarrow> string \<Rightarrow> bool" where
  "below prefix key \<longleftrightarrow>
     length prefix + 1 < length key \<and> take (length prefix + 1) key = prefix @ ''/''"

definition storage_List :: "storage \<Rightarrow> string \<Rightarrow> error + string list" where
  "storage_List s key =
     (let list = map snd (filter (\<lambda>kv. below key (fst kv)) s)
      in if list = [] then Inl NotFound else Inr list)"

section \<open>The pool service\<close>

text \<open>
  The service reads a not-found answer of the store as "nothing there yet":
  \<^verbatim>\<open>if microstorage.IsNotFound(err) { } else if err != nil { return }\<close>.
\<close>

definition orNotFound :: "'a \<Rightarrow> error + 'a \<Rightarrow> error + 'a" where
  "orNotFound d r = (case r of Inl e \<Rightarrow> if e = NotFound then Inr d else Inl e | Inr v \<Rightarrow> Inr v)"

text \<open>
  The loop of \<open>create\<close>: per item one namespace-level and one owner-level record, both
  holding the item. The result is the error (if any) and the store as it is left.
\<close>

fun create_items :: "storage \<Rightarrow> string \<Rightarrow> string \<Rightarrow> goint list \<Rightarrow> error option \<times> storage" where
  "create_items s namespace ID [] = (None, s)"
| "create_items s namespace ID (item # items) =
     (let i = Itoa item in
      case storage_Create s (ItemKeyFormat namespace i) i of
        Inl e \<Rightarrow> (Some e, s)
      | Inr s1 \<Rightarrow>
          (case storage_Create s1 (IDKeyFormat namespace ID i) i of
             Inl e \<Rightarrow> (Some e, s1)
           | Inr s2 \<Rightarrow> create_items s2 namespace ID items))"

text \<open>
  \<open>create\<close>: after the loop, \<open>items[len(items)-1]\<close> is written as the latest cursor.
  On an empty \<open>items\<close> the index is out of range and the Go runtime panics.
\<close>

definition create :: "storage \<Rightarrow> string \<Rightarrow> string \<Rightarrow> goint list \<Rightarrow> error option \<times> storage" where
  "create s namespace ID items =
     (case create_items s namespace ID items of
        (Some e, s1) \<Rightarrow> (Some e, s1)
      | (None, s1) \<Rightarrow>
          if items = [] then (Some IndexOutOfRange, s1)
          else (case storage_Create s1 (LatestKeyFormat namespace) (Itoa (last items)) of
                  Inl e \<Rightarrow> (Some e, s1)
                | Inr s2 \<Rightarrow> (None, s2)))"

text \<open>
  The allocation loop of \<open>Create\<close>, \<^verbatim>\<open>for i := 0; i < num; i++\<close>, by the number of
  iterations left. \<open>nextItem\<close> sorts the slice it is given in place, so the caller's
  \<open>used\<close> is sorted when the new item is appended to it. \<open>latest\<close> is not advanced
  inside a batch.
\<close>

fun Create_loop ::
  "nat \<Rightarrow> goint list \<Rightarrow> goint list \<Rightarrow> goint \<Rightarrow> goint \<Rightarrow> goint \<Rightarrow> (error + goint list) option" where
  "Create_loop 0 used items mn mx latest = Some (Inr items)"
| "Create_loop (Suc n) used items mn mx latest =
     (case nextItem used mn mx latest of
        None \<Rightarrow> None
      | Some (Inl e) \<Rightarrow> Some (Inl e)
      | Some (Inr item) \<Rightarrow>
          Create_loop n (sort_key sint used @ [item]) (items @ [item]) mn mx latest)"

text \<open>
  \<open>Create\<close>: read the namespace's items and its latest cursor, allocate \<open>num\<close> items,
  persist them. The result is \<open>None\<close> when an allocator call does not return.
\<close>

definition Create ::
  "storage \<Rightarrow> string \<Rightarrow> string \<Rightarrow> goint \<Rightarrow> goint \<Rightarrow> goint \<Rightarrow> ((error + goint list) \<times> storage) option" where
  "Create s namespace ID num mn mx =
     (case orNotFound [] (storage_List s (ItemListKeyFormat namespace)) of
        Inl e \<Rightarrow> Some (Inl e, s)
      | Inr v \<Rightarrow>
     (case stringsToInts v of
        Inl e \<Rightarrow> Some (Inl e, s)
      | Inr used \<Rightarrow>
     (case orNotFound (Itoa latestItemException) (storage_Search s (LatestKeyFormat namespace)) of
        Inl e \<Rightarrow> Some (Inl e, s)
      | Inr l \<Rightarrow>
     (case Atoi l of
        Inl e \<Rightarrow> Some (Inl e, s)
      | Inr latest \<Rightarrow>
     (case Create_loop (nat (sint num)) used [] mn mx latest of
        None \<Rightarrow> None
      | Some (Inl e) \<Rightarrow> Some (Inl e, s)
      | Some (Inr items) \<Rightarrow>
          (case create s namespace ID items of
             (Some e, s1) \<Rightarrow> Some (Inl e, s1)
           | (None, s1) \<Rightarrow> Some (Inr items, s1)))))))"

text \<open>The loop of \<open>delete\<close>: per item, both of its records are deleted.\<close>

fun delete_items :: "storage \<Rightarrow> string \<Rightarrow> string \<Rightarrow> goint list \<Rightarrow> error option \<times> storage" where
  "delete_items s namespace ID [] = (None, s)"
| "delete_items s namespace ID (item # items) =
     (let i = Itoa item in
      case storage_Delete s (ItemKeyFormat namespace i) of
        Inl e \<Rightarrow> (Some e, s)
      | Inr s1 \<Rightarrow>
          (case storage_Delete s1 (IDKeyFormat namespace ID i) of
             Inl e \<Rightarrow> (Some e, s1)
           | Inr s2 \<Rightarrow> delete_items s2 namespace ID items))"

text \<open>
  \<open>delete\<close>: the items, the owner's list key, and, when the namespace lists no item
  any more, the namespace's list key and its latest cursor.
\<close>

definition delete :: "storage \<Rightarrow> string \<Rightarrow> string \<Rightarrow> goint list \<Rightarrow> error option \<times> storage" where
  "delete s namespace ID items =
     (case delete_items s namespace ID items of
        (Some e, s1) \<Rightarrow> (Some e, s1)
      | (None, s1) \<Rightarrow>
     (case storage_Delete s1 (IDListKeyFormat namespace ID) of
        Inl e \<Rightarrow> (Some e, s1)
      | Inr s2 \<Rightarrow>
     (case orNotFound [] (storage_List s2 (ItemListKeyFormat namespace)) of
        Inl e \<Rightarrow> (Some e, s2)
      | Inr list \<Rightarrow>
          if length list = 0 then
            (case storage_Delete s2 (ItemListKeyFormat namespace) of
               Inl e \<Rightarrow> (Some e, s2)
             | Inr s3 \<Rightarrow>
                 (case storage_Delete s3 (LatestKeyFormat namespace) of
                    Inl e \<Rightarrow> (Some e, s3)
                  | Inr s4 \<Rightarrow> (None, s4)))
          else (None, s2))))"

definition Delete :: "storage \<Rightarrow> string \<Rightarrow> string \<Rightarrow> error option \<times> storage" where
  "Delete s namespace ID =
     (case orNotFound [] (storage_List s (IDListKeyFormat namespace ID)) of
        Inl e \<Rightarrow> (Some e, s)
      | Inr v \<Rightarrow>
          (case stringsToInts v of
             Inl e \<Rightarrow> (Some e, s)
           | Inr items \<Rightarrow> delete s namespace ID items))"

text \<open>
  Modelled from the spec: \<open>Service.Search\<close> is called by the tests but its code is not
  part of the sources. The spec: it returns every item currently owned by the owner
  within the namespace, in ascending numeric order, and fails with \<open>ItemsNotFound\<close>
  when the owner holds no items.
\<close>

definition Search :: "storage \<Rightarrow> string \<Rightarrow> string \<Rightarrow> error + goint list" where
  "Search s namespace ID =
     (case storage_List s (IDListKeyFormat namespace ID) of
        Inl e \<Rightarrow> if e = NotFound then Inl ItemsNotFound else Inl e
      | Inr v \<Rightarrow>
          (case stringsToInts v of
             Inl e \<Rightarrow> Inl e
           | Inr items \<Rightarrow> Inr (sort_key sint items)))"

section \<open>Vocabulary of the statements\<close>

text \<open>
  The integers of \<open>lo..hi\<close> that are not in \<open>used\<close>, in ascending order: the head of
  the list, when there is one, is the smallest free integer of the range.
\<close>

definition free :: "goint list \<Rightarrow> int \<Rightarrow> int \<Rightarrow> int list" where
  "free used lo hi = filter (\<lambda>k. k \<notin> sint ` set used) [lo..hi]"

section \<open>Properties of the allocator's scan\<close>

lemma containsInt_set: "containsInt used i \<longleftrightarrow> i \<in> set used"
  by (induction used) auto

lemma sint_bounds: "- (2 ^ 63) \<le> sint (i::goint)" "sint (i::goint) < 2 ^ 63"
  using sint_ge [of i] sint_lt [of i] by simp_all

lemma sint_succ:
  assumes "sint (i::goint) < 2 ^ 63 - 1"
  shows "sint (i + 1) = sint i + 1"
proof -
  have "sint (i + 1) = signed_take_bit 63 (sint i + 1)"
    by (simp add: sint_word_ariths)
  also have "\<dots> = sint i + 1"
    using assms sint_bounds [of i] by (simp add: signed_take_bit_int_eq_self)
  finally show ?thesis .
qed

lemma sint_eq_iff: "sint (a::goint) = sint b \<longleftrightarrow> a = b"
  by (auto intro: signed_word_eqI)

lemma iterator_found:
  assumes "sint i \<le> sint j" "sint j \<le> sint mx" "j \<notin> set used"
    and "\<forall>k. sint i \<le> sint k \<and> sint k < sint j \<longrightarrow> k \<in> set used"
  shows "iterator used i mx = Some j"
  using assms
proof (induction "nat (sint j - sint i)" arbitrary: i)
  case 0
  then have "i = j" by (simp add: sint_eq_iff [symmetric])
  with 0 show ?case by (subst iterator.simps) (simp add: containsInt_set)
next
  case (Suc n)
  then have lt: "sint i < sint j" by linarith
  have su: "sint (i + 1) = sint i + 1"
    using lt sint_bounds(2) [of j] by (intro sint_succ) linarith
  have "i \<in> set used" using Suc.prems(4) lt by simp
  moreover have "iterator used (i + 1) mx = Some j"
  proof (rule Suc.hyps(1))
    show "n = nat (sint j - sint (i + 1))" using Suc.hyps(2) su by linarith
    show "sint (i + 1) \<le> sint j" using su lt by linarith
    show "\<forall>k. sint (i + 1) \<le> sint k \<and> sint k < sint j \<longrightarrow> k \<in> set used"
      using Suc.prems(4) su by auto
  qed (use Suc.prems in auto)
  ultimately show ?case
    using lt Suc.prems(2) by (subst iterator.simps) (simp add: containsInt_set)
qed

lemma iterator_exhausted:
  assumes "sint mx < 2 ^ 63 - 1"
    and "\<forall>k. sint i \<le> sint k \<and> sint k \<le> sint mx \<longrightarrow> k \<in> set used"
  shows "iterator used i mx = Some latestItemException"
  using assms
proof (induction "nat (sint mx + 1 - sint i)" arbitrary: i)
  case 0
  then have "\<not> sint i \<le> sint mx" by linarith
  then show ?case by (subst iterator.simps) simp
next
  case (Suc n)
  then have le: "sint i \<le> sint mx" by linarith
  have su: "sint (i + 1) = sint i + 1"
    using le Suc.prems(1) by (intro sint_succ) linarith
  have "i \<in> set used" using Suc.prems(2) le by simp
  moreover have "iterator used (i + 1) mx = Some latestItemException"
  proof (rule Suc.hyps(1))
    show "n = nat (sint mx + 1 - sint (i + 1))" using Suc.hyps(2) su by linarith
    show "\<forall>k. sint (i + 1) \<le> sint k \<and> sint k \<le> sint mx \<longrightarrow> k \<in> set used"
      using Suc.prems(2) su by auto
  qed (use Suc.prems in auto)
  ultimately show ?case
    using le by (subst iterator.simps) (simp add: containsInt_set)
qed

section \<open>Printing and reading numbers\<close>

lemma digit_val_digit_char: "d < 10 \<Longrightarrow> digit_val (digit_char d) = Some d"
proof -
  assume "d < 10"
  then have "d \<in> {0, 1, 2, 3, 4, 5, 6, 7, 8, 9}" by auto
  then show ?thesis by (auto simp: digit_val_def digit_char_def)
qed

lemma parse_nat_snoc:
  "d < 10 \<Longrightarrow> parse_nat a (xs @ [digit_char d]) = map_option (\<lambda>m. m * 10 + d) (parse_nat a xs)"
  by (induction xs arbitrary: a) (auto simp: digit_val_digit_char split: option.splits)

lemma parse_nat_digits: "parse_nat 0 (digits n) = Some n"
proof (induction n rule: digits.induct)
  case (1 n)
  show ?case
  proof (cases "n < 10")
    case True
    then show ?thesis by (subst digits.simps) (simp add: digit_val_digit_char)
  next
    case False
    with 1 show ?thesis by (subst digits.simps) (simp add: parse_nat_snoc)
  qed
qed

lemma digits_nonempty: "digits n \<noteq> []"
  by (subst digits.simps) simp

lemma digit_char_cases: "d < 10 \<Longrightarrow> digit_char d \<in> set ''0123456789''"
  unfolding digit_char_def by (rule nth_mem) simp

lemma set_digits: "set (digits n) \<subseteq> set ''0123456789''"
proof (induction n rule: digits.induct)
  case (1 n)
  show ?case
  proof (cases "n < 10")
    case True
    then show ?thesis using digit_char_cases [of n] by (subst digits.simps) simp
  next
    case False
    with 1 show ?thesis using digit_char_cases [of "n mod 10"] by (subst digits.simps) simp
  qed
qed

lemma Atoi_Itoa: "Atoi (Itoa i) = Inr i"
proof (cases "sint i < 0")
  case True
  have "nat (- sint i) \<le> 2 ^ 63" using sint_ge [of i] by simp
  moreover have "word_of_int (- int (nat (- sint i))) = i" using True by simp
  ultimately show ?thesis using True
    by (simp add: Atoi_def Itoa_def digits_nonempty parse_nat_digits)
next
  case False
  obtain c cs where d: "digits (nat (sint i)) = c # cs"
    using digits_nonempty [of "nat (sint i)"] by (cases "digits (nat (sint i))") auto
  have "c \<in> set ''0123456789''" using set_digits [of "nat (sint i)"] d by auto
  then have c: "c \<noteq> CHR ''-''" "c \<noteq> CHR ''+''" by auto
  have "nat (sint i) < 2 ^ 63" using sint_lt [of i] False by simp
  moreover have "word_of_nat (nat (sint i)) = i" using False by simp
  ultimately show ?thesis using False c d parse_nat_digits [of "nat (sint i)"]
    by (simp add: Atoi_def Itoa_def)
qed

section \<open>The allocator's result\<close>

lemma filter_upto_Nil: "filter P [lo..hi] = [] \<Longrightarrow> lo \<le> k \<Longrightarrow> k \<le> hi \<Longrightarrow> \<not> P k"
  by (auto simp: filter_empty_conv)

lemma filter_upto_Cons:
  "filter P [lo..hi] = r # rest \<Longrightarrow> P r \<and> lo \<le> r \<and> r \<le> hi \<and> (\<forall>k. lo \<le> k \<and> k < r \<longrightarrow> \<not> P k)"
proof (induction "nat (hi + 1 - lo)" arbitrary: lo)
  case 0
  then have "[lo..hi] = []" by simp
  with 0 show ?case by simp
next
  case (Suc n)
  then have le: "lo \<le> hi" by linarith
  then have up: "[lo..hi] = lo # [lo + 1..hi]" by (simp add: upto_rec1)
  show ?case
  proof (cases "P lo")
    case True
    with Suc.prems up have "r = lo" by simp
    with True le show ?thesis by auto
  next
    case False
    with Suc.prems up have f: "filter P [lo + 1..hi] = r # rest" by simp
    have "n = nat (hi + 1 - (lo + 1))" using Suc.hyps(2) by linarith
    from Suc.hyps(1) [OF this f] have "P r" "lo + 1 \<le> r" "r \<le> hi" "\<forall>k. lo + 1 \<le> k \<and> k < r \<longrightarrow> \<not> P k"
      by auto
    moreover have "\<not> P k" if "lo \<le> k" "k < r" for k
    proof (cases "k = lo")
      case True
      with False show ?thesis by simp
    next
      case False
      with that have "lo + 1 \<le> k" by linarith
      with \<open>\<forall>k. lo + 1 \<le> k \<and> k < r \<longrightarrow> \<not> P k\<close> that show ?thesis by blast
    qed
    ultimately show ?thesis by auto
  qed
qed

lemma free_Nil:
  "free used lo hi = [] \<Longrightarrow> (\<forall>k. lo \<le> sint k \<and> sint k \<le> hi \<longrightarrow> k \<in> set used)"
proof (intro allI impI)
  fix k :: goint
  assume a: "free used lo hi = []" "lo \<le> sint k \<and> sint k \<le> hi"
  then have "sint k \<in> sint ` set used"
    using filter_upto_Nil [of "\<lambda>k. k \<notin> sint ` set used" lo hi "sint k"]
    by (simp add: free_def)
  then obtain k' where "k' \<in> set used" "sint k = sint k'" by auto
  then show "k \<in> set used" by (simp add: sint_eq_iff)
qed

lemma free_Cons:
  assumes "free used lo hi = r # rest" "- (2 ^ 63) \<le> lo" "hi < 2 ^ 63"
  shows "lo \<le> sint (word_of_int r :: goint)" "sint (word_of_int r :: goint) \<le> hi"
    "(word_of_int r :: goint) \<notin> set used"
    "\<forall>k::goint. lo \<le> sint k \<and> sint k < sint (word_of_int r :: goint) \<longrightarrow> k \<in> set used"
proof -
  from filter_upto_Cons [OF assms(1) [unfolded free_def]]
  have r: "r \<notin> sint ` set used" "lo \<le> r" "r \<le> hi" "\<forall>k. lo \<le> k \<and> k < r \<longrightarrow> k \<in> sint ` set used"
    by auto
  have "- (2 ^ 63) \<le> r" "r < 2 ^ 63" using r(2,3) assms(2,3) by linarith+
  then have "signed_take_bit 63 r = r" by (rule signed_take_bit_int_eq_self)
  then have s: "sint (word_of_int r :: goint) = r" by (simp add: sint_sbintrunc')
  show "lo \<le> sint (word_of_int r :: goint)" "sint (word_of_int r :: goint) \<le> hi"
    using r s by simp_all
  show "(word_of_int r :: goint) \<notin> set used"
  proof
    assume "(word_of_int r :: goint) \<in> set used"
    then have "sint (word_of_int r :: goint) \<in> sint ` set used" by (rule imageI)
    with r(1) s show False by simp
  qed
  show "\<forall>k::goint. lo \<le> sint k \<and> sint k < sint (word_of_int r :: goint) \<longrightarrow> k \<in> set used"
  proof (intro allI impI)
    fix k :: goint
    assume "lo \<le> sint k \<and> sint k < sint (word_of_int r :: goint)"
    with r(4) s have "sint k \<in> sint ` set used" by simp
    then obtain k' where "k' \<in> set used" "sint k = sint k'" by auto
    then show "k \<in> set used" by (simp add: sint_eq_iff)
  qed
qed

lemma iterator_free:
  assumes "sint mx < 2 ^ 63 - 1" "sint i = lo"
  shows "iterator used i mx =
     Some (case free used lo (sint mx) of [] \<Rightarrow> latestItemException | r # rest \<Rightarrow> word_of_int r)"
proof (cases "free used lo (sint mx)")
  case Nil
  then show ?thesis using iterator_exhausted [OF assms(1), of i used] free_Nil [OF Nil] assms(2) by simp
next
  case (Cons r rest)
  have b: "- (2 ^ 63) \<le> lo" "sint mx < 2 ^ 63" using sint_bounds [of i] assms by simp_all
  from free_Cons [OF Cons b]
  show ?thesis using Cons assms(2) by (simp add: iterator_found)
qed

lemma set_sort_sint: "set (sort_key sint used) = set used"
  by simp

lemma free_sort: "free (sort_key sint used) lo hi = free used lo hi"
  by (simp add: free_def)

lemma free_pos: "free used lo hi = r # rest \<Longrightarrow> 0 \<le> lo \<Longrightarrow> hi < 2 ^ 63 \<Longrightarrow> (word_of_int r :: goint) \<noteq> -1"
proof -
  assume a: "free used lo hi = r # rest" "0 \<le> lo" "hi < 2 ^ 63"
  then have "lo \<le> sint (word_of_int r :: goint)" by (intro free_Cons(1) [OF a(1)]) simp_all
  with a(2) show ?thesis by auto
qed

lemma nextItem_bounded:
  assumes "0 \<le> sint mn" "0 \<le> sint mx" "sint mn < sint mx"
    and "latest = -1 \<or> (sint mn \<le> sint latest \<and> sint latest \<le> sint mx)"
    and "sint mx < 2 ^ 63 - 1"
  shows "nextItem used mn mx latest =
     Some (if latest \<noteq> -1 \<and> free used (sint latest + 1) (sint mx) \<noteq> []
           then Inr (word_of_int (hd (free used (sint latest + 1) (sint mx))))
           else if free used (sint mn) (sint mx) \<noteq> []
           then Inr (word_of_int (hd (free used (sint mn) (sint mx))))
           else Inl CapacityReached)"
proof -
  let ?u = "sort_key sint used"
  have valid: "\<not> sint mn \<le> -1" "\<not> sint mx \<le> -1" "\<not> sint mn \<ge> sint mx"
    "\<not> (latest \<noteq> latestItemException \<and> sint latest < sint mn)"
    "\<not> (latest \<noteq> latestItemException \<and> sint latest > sint mx)"
    using assms by (auto simp: latestItemException_def)
  have it2: "iterator ?u mn mx =
      Some (case free used (sint mn) (sint mx) of [] \<Rightarrow> latestItemException | r # rest \<Rightarrow> word_of_int r)"
    using iterator_free [OF assms(5), of mn "sint mn" ?u] by (simp add: free_sort)
  have ph2: "(case iterator ?u mn mx of None \<Rightarrow> None
       | Some n2 \<Rightarrow> if n2 \<noteq> latestItemException then Some (Inr n2) else Some (Inl CapacityReached)) =
     Some (if free used (sint mn) (sint mx) \<noteq> []
           then Inr (word_of_int (hd (free used (sint mn) (sint mx))))
           else Inl CapacityReached)"
  proof (cases "free used (sint mn) (sint mx)")
    case Nil
    then show ?thesis by (simp add: it2)
  next
    case (Cons r rest)
    have "(word_of_int r :: goint) \<noteq> -1"
      using free_pos [OF Cons] assms(1) sint_bounds(2) [of mx] by simp
    then show ?thesis using Cons by (simp add: it2 latestItemException_def)
  qed
  show ?thesis
  proof (cases "latest = -1")
    case True
    then have "latest = latestItemException" by (simp add: latestItemException_def)
    then show ?thesis
      using valid(1,2,3) True by (simp add: nextItem_def Let_def ph2)
  next
    case False
    then have ne: "latest \<noteq> latestItemException" by (simp add: latestItemException_def)
    from False have lat: "sint mn \<le> sint latest" "sint latest \<le> sint mx" using assms(4) by auto
    have su: "sint (latest + 1) = sint latest + 1"
      using lat(2) assms(5) by (intro sint_succ) linarith
    have it1: "iterator ?u (latest + 1) mx =
      Some (case free used (sint latest + 1) (sint mx) of [] \<Rightarrow> latestItemException | r # rest \<Rightarrow> word_of_int r)"
      using iterator_free [OF assms(5), of "latest + 1" "sint latest + 1" ?u] su by (simp add: free_sort)
    show ?thesis
    proof (cases "free used (sint latest + 1) (sint mx)")
      case Nil
      then show ?thesis
        using valid(1,2,3) lat ne False by (simp add: nextItem_def Let_def it1 ph2)
    next
      case (Cons r rest)
      have "(word_of_int r :: goint) \<noteq> -1"
        using free_pos [OF Cons] assms(1) lat(1) sint_bounds(2) [of mx] by simp
      then have "(word_of_int r :: goint) \<noteq> latestItemException"
        by (simp add: latestItemException_def)
      then show ?thesis
        using valid(1,2,3) lat ne False Cons by (simp add: nextItem_def Let_def it1)
    qed
  qed
qed

text \<open>
  C5: \<open>nextItem\<close> fails with \<open>ExecutionFailed\<close> exactly when \<open>min < 0\<close>, or
  \<open>max < 0\<close>, or \<open>min \<ge> max\<close>, or \<open>latest\<close> is not the sentinel \<open>-1\<close> and lies
  below \<open>min\<close> or above \<open>max\<close>. With \<open>min = 2\<close> and \<open>max = 9\<close>, \<open>latest = 10\<close> and
  \<open>latest = 0\<close> both fail with \<open>ExecutionFailed\<close>, whatever is in use.
\<close>

theorem nextItem_ExecutionFailed_iff:
  "(nextItem used mn mx latest = Some (Inl ExecutionFailed) \<longleftrightarrow>
      sint mn < 0 \<or> sint mx < 0 \<or> sint mn \<ge> sint mx \<or>
      (latest \<noteq> -1 \<and> (sint latest < sint mn \<or> sint latest > sint mx)))
   \<and> nextItem used' 2 9 10 = Some (Inl ExecutionFailed)
   \<and> nextItem used' 2 9 0 = Some (Inl ExecutionFailed)"
  by (auto simp: nextItem_def latestItemException_def Let_def split: option.splits if_splits)

text \<open>
  C1, at the largest \<open>int\<close>: with \<open>max = latest = 9223372036854775807\<close> the
  validations pass, \<open>latest + 1\<close> wraps around to the smallest \<open>int\<close>, which passes the
  test \<open>i <= max\<close> and is not in use, and \<open>nextItem\<close> returns it: an item below
  \<open>min\<close>, where the smallest free integer of \<open>min..max\<close> is \<open>0\<close>.
\<close>

theorem nextItem_wraps_at_largest_int:
  "nextItem [] 0 9223372036854775807 9223372036854775807 = Some (Inr (- 9223372036854775808))"
  by (simp add: nextItem_def iterator.simps latestItemException_def)

end
